theory Spec2Isabelle
  imports Complex_Main "HOL-Library.FSet"
begin

section \<open>Python values used by the downloader\<close>

text \<open>
  The exceptions that can reach the handlers of \<open>main.py\<close>. Every one of them derives
  from Python's \<open>Exception\<close>; \<open>FloodWaitError\<close> carries its \<open>seconds\<close>, \<open>OtherError\<close>
  stands for any further exception of the transport, with its message.
\<close>

datatype exn =
    FloodWaitError int
  | OtherError string
  | FileExistsError
  | FileNotFoundError
  | IsADirectoryError
  | NotADirectoryError
  | JSONDecodeError
  | AttributeError
  | TypeError
  | ValueError
  | OverflowError

subsection \<open>\<open>str(int)\<close>, as the f-strings apply it\<close>

definition digit_char :: "nat \<Rightarrow> char" where
  "digit_char d = ''0123456789'' ! d"

fun str_nat :: "nat \<Rightarrow> string" where
  "str_nat n = (if n < 10 then [digit_char n] else str_nat (n div 10) @ [digit_char (n mod 10)])"

declare str_nat.simps [simp del]

definition str_int :: "int \<Rightarrow> string" where
  "str_int i = (if i < 0 then CHR ''-'' # str_nat (nat (- i)) else str_nat (nat i))"

subsection \<open>Values decoded by \<open>json.load\<close>\<close>

text \<open>
  A JSON number with a fraction or an exponent is decoded to a float; only its conversion
  by \<open>int\<close> matters here, so a finite float is kept as the rational it denotes.
\<close>

datatype pyfloat = Finite rat | Infinity | NegInfinity | NaN

datatype json =
    JNull
  | JBool bool
  | JInt int
  | JFloat pyfloat
  | JStr string
  | JArr "json list"
  | JObj "(string \<times> json) list"

text \<open>
  \<open>int(s)\<close> on a string, for ASCII text: surrounding whitespace is stripped, one sign is
  allowed, then decimal digits, single underscores only between digits.
\<close>

definition is_space :: "char \<Rightarrow> bool" where
  "is_space c = (let k = (of_char c :: nat) in (9 \<le> k \<and> k \<le> 13) \<or> (28 \<le> k \<and> k \<le> 32))"

definition is_digit :: "char \<Rightarrow> bool" where
  "is_digit c = (let k = (of_char c :: nat) in 48 \<le> k \<and> k \<le> 57)"

definition digit_val :: "char \<Rightarrow> nat" where
  "digit_val c = of_char c - 48"

definition strip :: "string \<Rightarrow> string" where
  "strip s = rev (dropWhile is_space (rev (dropWhile is_space s)))"

fun parse_digits :: "nat \<Rightarrow> string \<Rightarrow> nat option" where
  "parse_digits acc [] = Some acc"
| "parse_digits acc [c] = (if is_digit c then Some (10 * acc + digit_val c) else None)"
| "parse_digits acc (c # d # ds) =
     (if is_digit c then parse_digits (10 * acc + digit_val c) (d # ds)
      else if c = CHR ''_'' \<and> is_digit d then parse_digits (10 * acc + digit_val d) ds
      else None)"

definition parse_nat :: "string \<Rightarrow> nat option" where
  "parse_nat s =
     (case s of
        [] \<Rightarrow> None
      | c # cs \<Rightarrow> if is_digit c then parse_digits (digit_val c) cs else None)"

definition int_of_str :: "string \<Rightarrow> int option" where
  "int_of_str s =
     (let t = strip s in
      case t of
        [] \<Rightarrow> None
      | c # r \<Rightarrow>
          if c = CHR ''-'' then map_option (\<lambda>n. - int n) (parse_nat r)
          else if c = CHR ''+'' then map_option int (parse_nat r)
          else map_option int (parse_nat t))"

definition trunc :: "rat \<Rightarrow> int" where
  "trunc r = (if r < 0 then - \<lfloor>- r\<rfloor> else \<lfloor>r\<rfloor>)"

fun py_int :: "json \<Rightarrow> exn + int" where
  "py_int JNull = Inl TypeError"
| "py_int (JBool b) = Inr (if b then 1 else 0)"
| "py_int (JInt i) = Inr i"
| "py_int (JFloat (Finite r)) = Inr (trunc r)"
| "py_int (JFloat NaN) = Inl ValueError"
| "py_int (JFloat _) = Inl OverflowError"
| "py_int (JStr s) = (case int_of_str s of None \<Rightarrow> Inl ValueError | Some i \<Rightarrow> Inr i)"
| "py_int (JArr _) = Inl TypeError"
| "py_int (JObj _) = Inl TypeError"

text \<open>\<open>for x in ids\<close>: a list gives its items, a string its characters, a dict its keys.\<close>

fun py_iter :: "json \<Rightarrow> exn + json list" where
  "py_iter (JArr xs) = Inr xs"
| "py_iter (JStr s) = Inr (map (\<lambda>c. JStr [c]) s)"
| "py_iter (JObj kvs) = Inr (map (\<lambda>kv. JStr (fst kv)) kvs)"
| "py_iter _ = Inl TypeError"

text \<open>\<open>data.get(key, default)\<close>: only a dict has the method.\<close>

fun py_get :: "json \<Rightarrow> string \<Rightarrow> json \<Rightarrow> exn + json" where
  "py_get (JObj kvs) key dflt = Inr (case map_of kvs key of None \<Rightarrow> dflt | Some v \<Rightarrow> v)"
| "py_get _ key dflt = Inl AttributeError"

text \<open>\<open>set(int(x) for x in ids)\<close>: the first failing conversion raises.\<close>

fun int_set :: "json list \<Rightarrow> exn + int fset" where
  "int_set [] = Inr {||}"
| "int_set (x # xs) =
     (case py_int x of
        Inl e \<Rightarrow> Inl e
      | Inr i \<Rightarrow> (case int_set xs of Inl e \<Rightarrow> Inl e | Inr s \<Rightarrow> Inr (finsert i s)))"

section \<open>The file system\<close>

text \<open>
  A path is the list of its components, \<open>p / name\<close> appends one. A node is a directory or
  a file; a file holds a JSON document (what \<open>json.dump\<close> wrote and \<open>json.load\<close> reads
  back) or content that \<open>json.load\<close> rejects, such as media bytes or a torn ledger.
\<close>

type_synonym path = "string list"

datatype content = JsonDoc json | Opaque

datatype node = Dir | File content

type_synonym filesystem = "path \<rightharpoonup> node"

definition path_join :: "path \<Rightarrow> string \<Rightarrow> path" where
  "path_join p nm = p @ [nm]"

definition path_exists :: "filesystem \<Rightarrow> path \<Rightarrow> bool" where
  "path_exists disk p = (p = [] \<or> disk p \<noteq> None)"

definition is_dir :: "filesystem \<Rightarrow> path \<Rightarrow> bool" where
  "is_dir disk p = (p = [] \<or> disk p = Some Dir)"

text \<open>
  \<open>Path.mkdir(parents=True, exist_ok=True)\<close>, on the reversed path (last component
  first): an existing directory is accepted, an existing file raises, a missing parent is
  created first.
\<close>

fun mkdir_rev :: "string list \<Rightarrow> filesystem \<Rightarrow> exn option \<times> filesystem" where
  "mkdir_rev [] disk = (None, disk)"
| "mkdir_rev (c # up) disk =
     (case disk (rev (c # up)) of
        Some Dir \<Rightarrow> (None, disk)
      | Some (File _) \<Rightarrow> (Some FileExistsError, disk)
      | None \<Rightarrow>
          if is_dir disk (rev up) then (None, disk(rev (c # up) \<mapsto> Dir))
          else if path_exists disk (rev up) then (Some NotADirectoryError, disk)
          else
            (case mkdir_rev up disk of
               (Some e, disk') \<Rightarrow> (Some e, disk')
             | (None, disk') \<Rightarrow> (None, disk'(rev (c # up) \<mapsto> Dir))))"

definition mkdir :: "path \<Rightarrow> filesystem \<Rightarrow> exn option \<times> filesystem" where
  "mkdir p disk = mkdir_rev (rev p) disk"

text \<open>\<open>open(p, "r")\<close> followed by \<open>json.load\<close>.\<close>

definition read_json :: "filesystem \<Rightarrow> path \<Rightarrow> exn + json" where
  "read_json disk p =
     (case disk p of
        None \<Rightarrow> Inl FileNotFoundError
      | Some Dir \<Rightarrow> Inl IsADirectoryError
      | Some (File Opaque) \<Rightarrow> Inl JSONDecodeError
      | Some (File (JsonDoc j)) \<Rightarrow> Inr j)"

text \<open>\<open>open(p, "w")\<close> followed by \<open>json.dump\<close>.\<close>

definition write_json :: "filesystem \<Rightarrow> path \<Rightarrow> json \<Rightarrow> exn option \<times> filesystem" where
  "write_json disk p j =
     (if is_dir disk p then (Some IsADirectoryError, disk)
      else if is_dir disk (butlast p) then (None, disk(p \<mapsto> File (JsonDoc j)))
      else if path_exists disk (butlast p) then (Some NotADirectoryError, disk)
      else (Some FileNotFoundError, disk))"

text \<open>\<open>os.replace(src, dst)\<close>: one step that moves the node of \<open>src\<close> to \<open>dst\<close>.\<close>

definition os_replace :: "filesystem \<Rightarrow> path \<Rightarrow> path \<Rightarrow> exn option \<times> filesystem" where
  "os_replace disk src dst =
     (case disk src of
        None \<Rightarrow> (Some FileNotFoundError, disk)
      | Some n \<Rightarrow>
          if is_dir disk dst \<and> n \<noteq> Dir then (Some IsADirectoryError, disk)
          else if n = Dir \<and> path_exists disk dst \<and> \<not> is_dir disk dst
            then (Some NotADirectoryError, disk)
          else if \<not> is_dir disk (butlast dst) then
            (Some (if path_exists disk (butlast dst) then NotADirectoryError
                   else FileNotFoundError), disk)
          else (None, (disk(src := None))(dst \<mapsto> n)))"

text \<open>
  \<open>Path.with_suffix\<close>: the suffix of the last component (from its last dot, when that
  dot is neither first nor last) is replaced.
\<close>

definition suffix_of :: "string \<Rightarrow> string" where
  "suffix_of nm =
     (let tl_part = rev (takeWhile (\<lambda>c. c \<noteq> CHR ''.'') (rev nm)) in
      if CHR ''.'' \<in> set nm \<and> tl_part \<noteq> [] \<and> length tl_part + 1 < length nm
      then CHR ''.'' # tl_part else [])"

definition with_suffix :: "path \<Rightarrow> string \<Rightarrow> exn + path" where
  "with_suffix p sfx =
     (if p = [] \<or> last p = [] then Inl ValueError
      else if sfx \<noteq> [] \<and> (hd sfx \<noteq> CHR ''.'' \<or> sfx = ''.'' \<or> CHR ''/'' \<in> set sfx)
        then Inl ValueError
      else
        let nm = last p; old = suffix_of nm
        in Inr (butlast p @ [take (length nm - length old) nm @ sfx]))"

section \<open>The ledger\<close>

definition per_chat_log_path :: "path \<Rightarrow> path" where
  "per_chat_log_path chat_folder = path_join chat_folder ''_downloaded.json''"

text \<open>The body of the \<open>try\<close> of \<open>load_downloaded_set\<close>.\<close>

definition load_try :: "filesystem \<Rightarrow> path \<Rightarrow> exn + int fset" where
  "load_try disk log_path =
     (case read_json disk log_path of
        Inl e \<Rightarrow> Inl e
      | Inr data \<Rightarrow>
          (case py_get data ''downloaded_ids'' (JArr []) of
             Inl e \<Rightarrow> Inl e
           | Inr ids \<Rightarrow>
               (case py_iter ids of
                  Inl e \<Rightarrow> Inl e
                | Inr xs \<Rightarrow> int_set xs)))"

text \<open>
  \<open>load_downloaded_set\<close>: \<open>Inl\<close> would be an exception leaving the function; the handler
  \<open>except Exception\<close> turns each one of the body into the empty set.
\<close>

definition load_downloaded_set :: "filesystem \<Rightarrow> path \<Rightarrow> exn + int fset" where
  "load_downloaded_set disk chat_folder =
     (let log_path = per_chat_log_path chat_folder in
      if path_exists disk log_path then
        (case load_try disk log_path of
           Inr s \<Rightarrow> Inr s
         | Inl e \<Rightarrow> Inr {||})
      else Inr {||})"

text \<open>\<open>chat_meta.get(key)\<close> on a dict: \<open>None\<close> when the key is missing.\<close>

definition meta_get :: "(string \<rightharpoonup> json) \<Rightarrow> string \<Rightarrow> json" where
  "meta_get chat_meta key = (case chat_meta key of None \<Rightarrow> JNull | Some v \<Rightarrow> v)"

definition ledger_payload :: "int fset \<Rightarrow> (string \<rightharpoonup> json) \<Rightarrow> json" where
  "ledger_payload msg_ids chat_meta =
     JObj [(''chat_id'', meta_get chat_meta ''id''),
           (''chat_name'', meta_get chat_meta ''name''),
           (''downloaded_ids'', JArr (map JInt (sorted_list_of_fset msg_ids)))]"

text \<open>
  \<open>save_downloaded_set\<close>: the payload goes to the temporary file, which is then moved
  over the ledger; the exception of either step leaves the function.
\<close>

definition save_downloaded_set ::
  "filesystem \<Rightarrow> path \<Rightarrow> int fset \<Rightarrow> (string \<rightharpoonup> json) \<Rightarrow> exn option \<times> filesystem"
where
  "save_downloaded_set disk chat_folder msg_ids chat_meta =
     (let log_path = per_chat_log_path chat_folder;
          payload = ledger_payload msg_ids chat_meta
      in case with_suffix log_path ''.tmp'' of
           Inl e \<Rightarrow> (Some e, disk)
         | Inr temp \<Rightarrow>
             (case write_json disk temp payload of
                (Some e, disk1) \<Rightarrow> (Some e, disk1)
              | (None, disk1) \<Rightarrow> os_replace disk1 temp log_path))"

section \<open>Messages\<close>

text \<open>
  The attributes of a message that the downloader probes. \<open>photo\<close> and \<open>video\<close> say
  whether \<open>msg.photo\<close> and \<open>msg.video\<close> are set; \<open>attributes\<close> is \<open>None\<close> when the
  document has none.
\<close>

datatype media_envelope = MessageMediaPhoto | MessageMediaDocument | MessageMediaOther

datatype doc_attribute = DocumentAttributeVideo | DocumentAttributeOther

record document_info =
  attributes :: "doc_attribute list option"

record file_info =
  name :: "string option"
  ext :: "string option"

record message =
  msg_id :: int
  grouped_id :: "int option"
  media :: "media_envelope option"
  photo :: bool
  video :: bool
  document :: "document_info option"
  msg_file :: "file_info option"

record chat_entity =
  chat_id :: "int option"
  title :: "string option"
  username :: "string option"

text \<open>Python truthiness of an optional string and of an optional integer.\<close>

definition truthy_str :: "string option \<Rightarrow> bool" where
  "truthy_str s = (s \<noteq> None \<and> s \<noteq> Some [])"

definition truthy_int :: "int option \<Rightarrow> bool" where
  "truthy_int i = (i \<noteq> None \<and> i \<noteq> Some 0)"

definition is_photo_message :: "message option \<Rightarrow> bool" where
  "is_photo_message msg =
     (case msg of
        None \<Rightarrow> False
      | Some m \<Rightarrow> photo m \<or> media m = Some MessageMediaPhoto)"

definition is_video_message :: "message option \<Rightarrow> bool" where
  "is_video_message msg =
     (case msg of
        None \<Rightarrow> False
      | Some m \<Rightarrow>
          if video m then True
          else
            (case document m of
               None \<Rightarrow> False
             | Some doc \<Rightarrow>
                 DocumentAttributeVideo \<in>
                   set (case attributes doc of None \<Rightarrow> [] | Some attrs \<Rightarrow> attrs)))"

definition build_unique_filename :: "message \<Rightarrow> string \<Rightarrow> string" where
  "build_unique_filename msg default_ext =
     (let base =
            (case msg_file msg of
               None \<Rightarrow> ''file'' @ default_ext
             | Some f \<Rightarrow>
                 if truthy_str (name f) then the (name f)
                 else ''file'' @ (if truthy_str (ext f) then the (ext f) else default_ext))
      in ''msg_'' @ str_int (msg_id msg) @ ''_'' @ base)"

section \<open>The scan collector\<close>

text \<open>
  \<open>client.iter_messages(chat, limit=limit)\<close> belongs to the transport: it delivers at most
  \<open>limit\<close> messages of the history, newest first. An entry may be \<open>None\<close>.
\<close>

definition iter_messages :: "message option list \<Rightarrow> int \<Rightarrow> message option list" where
  "iter_messages history limit = take (nat limit) history"

fun collect_loop :: "string \<Rightarrow> message option list \<Rightarrow> message list \<Rightarrow> message list" where
  "collect_loop media_type [] collected = collected"
| "collect_loop media_type (msg # rest) collected =
     (case msg of
        None \<Rightarrow> collect_loop media_type rest collected
      | Some m \<Rightarrow>
          if media m = None then collect_loop media_type rest collected
          else if media_type = ''photos'' then
            (if is_photo_message msg then collect_loop media_type rest (collected @ [m])
             else collect_loop media_type rest collected)
          else if media_type = ''videos'' then
            (if is_video_message msg then collect_loop media_type rest (collected @ [m])
             else collect_loop media_type rest collected)
          else
            (if is_photo_message msg \<or> is_video_message msg
             then collect_loop media_type rest (collected @ [m])
             else collect_loop media_type rest collected))"

definition collect_media_messages ::
  "message option list \<Rightarrow> string \<Rightarrow> int \<Rightarrow> string \<Rightarrow> message list"
where
  "collect_media_messages history media_type limit order =
     (let collected = collect_loop media_type (iter_messages history limit) []
      in if order = ''oldest'' then rev collected else collected)"

section \<open>The download pass\<close>

text \<open>
  What a pass does to the outside, in order: a call of \<open>msg.download_media\<close> (with the
  message id and the path), a progress unit, the two console lines, a sleep.
\<close>

datatype event =
    DownloadMedia int path
  | Advance
  | PrintRateLimited int
  | Sleep int
  | PrintError int exn

text \<open>
  The transport answers the \<open>k\<close>-th call of \<open>download_media\<close> of a pass: \<open>None\<close> when
  the bytes were written to the path, else the exception it raises.
\<close>

type_synonym transport = "nat \<Rightarrow> message \<Rightarrow> path \<Rightarrow> exn option"

record pass_state =
  downloaded_ids :: "int fset"
  skipped :: nat
  completed :: nat
  disk_of :: filesystem
  calls :: nat
  events :: "event list"

definition target_dir_of :: "path \<Rightarrow> message \<Rightarrow> path" where
  "target_dir_of chat_folder msg =
     (if truthy_int (grouped_id msg)
      then path_join chat_folder (''group_'' @ str_int (the (grouped_id msg)))
      else chat_folder)"

definition out_path_of :: "path \<Rightarrow> message \<Rightarrow> path" where
  "out_path_of chat_folder msg =
     path_join (target_dir_of chat_folder msg) (build_unique_filename msg ''.bin'')"

text \<open>
  The body of the \<open>try\<close> for one message. It returns the exception that left it, if
  any, and the state reached up to there.
\<close>

definition try_body ::
  "transport \<Rightarrow> path \<Rightarrow> message \<Rightarrow> pass_state \<Rightarrow> exn option \<times> pass_state"
where
  "try_body download_media chat_folder msg s =
     (if msg_id msg |\<in>| downloaded_ids s then
        (None, s\<lparr>skipped := skipped s + 1, events := events s @ [Advance]\<rparr>)
      else
        let target_dir = target_dir_of chat_folder msg;
            made = (if truthy_int (grouped_id msg) then mkdir target_dir (disk_of s)
                    else (None, disk_of s))
        in case made of
             (Some e, disk1) \<Rightarrow> (Some e, s\<lparr>disk_of := disk1\<rparr>)
           | (None, disk1) \<Rightarrow>
               let unique_name = build_unique_filename msg ''.bin'';
                   out_path = path_join target_dir unique_name
               in if path_exists disk1 out_path then
                    (None, s\<lparr>downloaded_ids := finsert (msg_id msg) (downloaded_ids s),
                              skipped := skipped s + 1,
                              disk_of := disk1,
                              events := events s @ [Advance]\<rparr>)
                  else
                    (case download_media (calls s) msg out_path of
                       Some e \<Rightarrow>
                         (Some e, s\<lparr>disk_of := disk1,
                                     calls := calls s + 1,
                                     events := events s @ [DownloadMedia (msg_id msg) out_path]\<rparr>)
                     | None \<Rightarrow>
                         (None, s\<lparr>downloaded_ids := finsert (msg_id msg) (downloaded_ids s),
                                   completed := completed s + 1,
                                   disk_of := disk1(out_path \<mapsto> File Opaque),
                                   calls := calls s + 1,
                                   events := events s @
                                     [DownloadMedia (msg_id msg) out_path, Advance]\<rparr>)))"

text \<open>One iteration of \<open>for msg in messages\<close>: the body and its two handlers.\<close>

definition process_message ::
  "transport \<Rightarrow> path \<Rightarrow> message \<Rightarrow> pass_state \<Rightarrow> pass_state"
where
  "process_message download_media chat_folder msg s =
     (case try_body download_media chat_folder msg s of
        (None, s') \<Rightarrow> s'
      | (Some (FloodWaitError seconds), s') \<Rightarrow>
          s'\<lparr>events := events s' @ [PrintRateLimited seconds, Sleep seconds]\<rparr>
      | (Some e, s') \<Rightarrow>
          s'\<lparr>events := events s' @ [PrintError (msg_id msg) e, Advance]\<rparr>)"

fun for_loop :: "transport \<Rightarrow> path \<Rightarrow> message list \<Rightarrow> pass_state \<Rightarrow> pass_state" where
  "for_loop download_media chat_folder [] s = s"
| "for_loop download_media chat_folder (msg # rest) s =
     for_loop download_media chat_folder rest (process_message download_media chat_folder msg s)"

definition chat_meta_of :: "chat_entity \<Rightarrow> (string \<rightharpoonup> json)" where
  "chat_meta_of chat =
     [''id'' \<mapsto> (case chat_id chat of None \<Rightarrow> JNull | Some i \<Rightarrow> JInt i),
      ''name'' \<mapsto> JStr (if truthy_str (title chat) then the (title chat)
                        else if truthy_str (username chat) then the (username chat)
                        else (case chat_id chat of None \<Rightarrow> ''None'' | Some i \<Rightarrow> str_int i))]"

text \<open>
  \<open>download_messages\<close>: the counters \<open>(completed, skipped)\<close>, or the exception that left
  the function, together with the state the pass ended in.
\<close>

definition download_messages ::
  "transport \<Rightarrow> chat_entity \<Rightarrow> message list \<Rightarrow> path \<Rightarrow> filesystem \<Rightarrow>
     (exn + nat \<times> nat) \<times> pass_state"
where
  "download_messages download_media chat messages chat_folder disk =
     (case load_downloaded_set disk chat_folder of
        Inl e \<Rightarrow>
          (Inl e, \<lparr>downloaded_ids = {||}, skipped = 0, completed = 0, disk_of = disk,
                   calls = 0, events = []\<rparr>)
      | Inr ids \<Rightarrow>
          let meta = chat_meta_of chat;
              s = for_loop download_media chat_folder messages
                    \<lparr>downloaded_ids = ids, skipped = 0, completed = 0, disk_of = disk,
                     calls = 0, events = []\<rparr>
          in case save_downloaded_set (disk_of s) chat_folder (downloaded_ids s) meta of
               (Some e, disk') \<Rightarrow> (Inl e, s\<lparr>disk_of := disk'\<rparr>)
             | (None, disk') \<Rightarrow> (Inr (completed s, skipped s), s\<lparr>disk_of := disk'\<rparr>))"

section \<open>Reference predicates and sample data\<close>

text \<open>What the collector keeps for a media type, as one predicate on a delivered entry.\<close>

definition keeps :: "string \<Rightarrow> message option \<Rightarrow> bool" where
  "keeps media_type msg =
     (case msg of
        None \<Rightarrow> False
      | Some m \<Rightarrow>
          media m \<noteq> None \<and>
          (if media_type = ''photos'' then is_photo_message msg
           else if media_type = ''videos'' then is_video_message msg
           else is_photo_message msg \<or> is_video_message msg))"

text \<open>The filter of \<open>both\<close>: a message with media that classifies as photo or as video.\<close>

definition both_filter :: "message option \<Rightarrow> bool" where
  "both_filter msg =
     (msg \<noteq> None \<and> media (the msg) \<noteq> None \<and> (is_photo_message msg \<or> is_video_message msg))"

definition photo_msg :: "int \<Rightarrow> message" where
  "photo_msg i = \<lparr>msg_id = i, grouped_id = None, media = Some MessageMediaPhoto, photo = True,
     video = False, document = None, msg_file = None\<rparr>"

definition video_doc :: "int \<Rightarrow> message" where
  "video_doc i = \<lparr>msg_id = i, grouped_id = None, media = Some MessageMediaDocument,
     photo = False, video = False,
     document = Some \<lparr>attributes = Some [DocumentAttributeOther, DocumentAttributeVideo]\<rparr>,
     msg_file = None\<rparr>"

definition text_msg :: "int \<Rightarrow> message" where
  "text_msg i = \<lparr>msg_id = i, grouped_id = None, media = None, photo = False,
     video = False, document = None, msg_file = None\<rparr>"

text \<open>The value of a digit string, read back.\<close>

definition digits_value :: "string \<Rightarrow> nat" where
  "digits_value s = foldl (\<lambda>a c. 10 * a + digit_val c) 0 s"

text \<open>
  The part of the file name after the prefix: the declared name if present, else \<open>file\<close>
  with the attachment's extension or the default one.
\<close>

definition base_name :: "message \<Rightarrow> string \<Rightarrow> string" where
  "base_name msg default_ext =
     (if msg_file msg \<noteq> None \<and> truthy_str (name (the (msg_file msg)))
      then the (name (the (msg_file msg)))
      else ''file'' @
        (if msg_file msg \<noteq> None \<and> truthy_str (ext (the (msg_file msg)))
         then the (ext (the (msg_file msg))) else default_ext))"

definition named_msg :: "int \<Rightarrow> string \<Rightarrow> message" where
  "named_msg i nm = \<lparr>msg_id = i, grouped_id = None, media = Some MessageMediaPhoto, photo = True,
     video = False, document = None, msg_file = Some \<lparr>name = Some nm, ext = Some ''.jpg''\<rparr>\<rparr>"

(*DEFS-END*)

section \<open>The scan collector: order and filter\<close>

lemma collect_loop_acc:
  "collect_loop mt xs acc = acc @ map the (filter (keeps mt) xs)"
  by (induction xs arbitrary: acc) (auto simp: keeps_def split: option.splits)

lemma collect_loop_keeps: "collect_loop mt xs [] = map the (filter (keeps mt) xs)"
  by (simp add: collect_loop_acc)

text \<open>
  Claim C5. With \<open>order = oldest\<close> the collector returns the kept messages in the reverse
  of the delivery order; with any other order it returns them as delivered. When the kept
  messages have the ids 5, 3, 1 as delivered, \<open>oldest\<close> gives 1, 3, 5 and \<open>newest\<close> gives
  5, 3, 1; when they are delivered with descending ids, \<open>oldest\<close> gives ascending ids.
\<close>

theorem collect_order:
  "collect_media_messages history mt limit ''oldest'' =
     rev (map the (filter (keeps mt) (iter_messages history limit)))
   \<and> (order \<noteq> ''oldest'' \<longrightarrow>
        collect_media_messages history mt limit order =
          map the (filter (keeps mt) (iter_messages history limit)))
   \<and> (map msg_id (map the (filter (keeps mt) (iter_messages history limit))) = [5, 3, 1] \<longrightarrow>
        map msg_id (collect_media_messages history mt limit ''oldest'') = [1, 3, 5]
        \<and> map msg_id (collect_media_messages history mt limit ''newest'') = [5, 3, 1])
   \<and> (sorted_wrt (>) (map msg_id (collect_media_messages history mt limit ''newest'')) \<longrightarrow>
        sorted_wrt (<) (map msg_id (collect_media_messages history mt limit ''oldest'')))"
  by (simp add: collect_media_messages_def collect_loop_keeps rev_map [symmetric] sorted_wrt_rev
      del: rev_map)

theorem collect_order_witness:
  "''newest'' \<noteq> ''oldest''
   \<and> map msg_id (map the (filter (keeps ''both'')
        (iter_messages [Some (photo_msg 5), None, Some (photo_msg 3), Some (photo_msg 1)] 10)))
       = [5, 3, 1]
   \<and> sorted_wrt (>) (map msg_id (collect_media_messages
        [Some (photo_msg 5), None, Some (photo_msg 3), Some (photo_msg 1)] ''both'' 10 ''newest''))
   \<and> map msg_id (collect_media_messages
        [Some (photo_msg 5), None, Some (photo_msg 3), Some (photo_msg 1)] ''both'' 10 ''oldest'')
       = [1, 3, 5]
   \<and> map msg_id (collect_media_messages
        [Some (photo_msg 5), None, Some (photo_msg 3), Some (photo_msg 1)] ''both'' 10 ''newest'')
       = [5, 3, 1]"
  using collect_order [of "[Some (photo_msg 5), None, Some (photo_msg 3), Some (photo_msg 1)]"
      "''both''" 10 "''newest''"]
  by (simp add: iter_messages_def keeps_def photo_msg_def is_photo_message_def)

text \<open>
  Claim C10. A media type that is neither \<open>photos\<close> nor \<open>videos\<close> is treated as \<open>both\<close>:
  the collector returns what it returns for \<open>both\<close>, namely the delivered messages that
  have media and classify as photo or as video, and no other message.
\<close>

theorem other_media_type_is_both:
  assumes "mt \<noteq> ''photos''" and "mt \<noteq> ''videos''"
  shows "collect_media_messages history mt limit order =
           collect_media_messages history ''both'' limit order
         \<and> collect_loop mt (iter_messages history limit) [] =
             map the (filter both_filter (iter_messages history limit))
         \<and> set (collect_media_messages history mt limit order) =
             {m. Some m \<in> set (iter_messages history limit) \<and> media m \<noteq> None
                 \<and> (is_photo_message (Some m) \<or> is_video_message (Some m))}"
proof -
  have k: "keeps mt = both_filter"
    using assms by (auto simp: keeps_def both_filter_def fun_eq_iff split: option.splits)
  have kb: "keeps ''both'' = both_filter"
    by (auto simp: keeps_def both_filter_def fun_eq_iff split: option.splits)
  have s: "set (map the (filter both_filter xs)) =
      {m. Some m \<in> set xs \<and> media m \<noteq> None
          \<and> (is_photo_message (Some m) \<or> is_video_message (Some m))}" for xs
    by (force simp: both_filter_def image_iff)
  have c1: "collect_media_messages history mt limit order =
      collect_media_messages history ''both'' limit order"
    by (simp add: collect_media_messages_def collect_loop_keeps k kb)
  have c2: "collect_loop mt (iter_messages history limit) [] =
      map the (filter both_filter (iter_messages history limit))"
    by (simp add: collect_loop_keeps k)
  have c3: "set (collect_media_messages history mt limit order) =
      set (map the (filter both_filter (iter_messages history limit)))"
    by (simp add: collect_media_messages_def collect_loop_keeps k Let_def)
  show ?thesis
    using c1 c2 c3 s by blast
qed

theorem other_media_type_is_both_witness:
  "''all'' \<noteq> ''photos'' \<and> ''all'' \<noteq> ''videos''
   \<and> collect_media_messages [Some (photo_msg 4), Some (text_msg 3), Some (video_doc 2)]
        ''all'' 3 ''newest'' = [photo_msg 4, video_doc 2]
   \<and> collect_media_messages [Some (photo_msg 4), Some (text_msg 3), Some (video_doc 2)]
        ''both'' 3 ''newest'' = [photo_msg 4, video_doc 2]"
proof -
  have a: "''all'' \<noteq> ''photos''" and b: "''all'' \<noteq> ''videos''" by simp_all
  have c: "collect_media_messages [Some (photo_msg 4), Some (text_msg 3), Some (video_doc 2)]
      ''both'' 3 ''newest'' = [photo_msg 4, video_doc 2]"
    by (simp add: collect_media_messages_def iter_messages_def photo_msg_def text_msg_def
        video_doc_def is_photo_message_def is_video_message_def)
  show ?thesis
    using other_media_type_is_both [OF a b,
        of "[Some (photo_msg 4), Some (text_msg 3), Some (video_doc 2)]" 3 "''newest''"] c
    by simp
qed

section \<open>File names\<close>

lemma small_cases:
  "d < 10 \<Longrightarrow> d = 0 \<or> d = 1 \<or> d = 2 \<or> d = 3 \<or> d = 4 \<or> d = 5 \<or> d = 6 \<or> d = 7 \<or> d = 8
     \<or> d = (9::nat)"
  by arith

lemma digit_char_cases:
  "d < 10 \<Longrightarrow> is_digit (digit_char d) \<and> digit_val (digit_char d) = d"
proof -
  assume "d < 10"
  then have "d = 0 \<or> d = 1 \<or> d = 2 \<or> d = 3 \<or> d = 4 \<or> d = 5 \<or> d = 6 \<or> d = 7 \<or> d = 8 \<or> d = 9"
    by (rule small_cases)
  then show ?thesis
    by (elim disjE) (simp_all add: digit_char_def digit_val_def is_digit_def)
qed

lemma str_nat_digits: "c \<in> set (str_nat n) \<Longrightarrow> is_digit c"
proof (induction n rule: str_nat.induct)
  case (1 n)
  show ?case
  proof (cases "n < 10")
    case True
    then have "str_nat n = [digit_char n]"
      by (subst str_nat.simps) simp
    with 1(2) have "c = digit_char n"
      by (simp only: list.set) simp
    then show ?thesis
      using digit_char_cases [OF True] by simp
  next
    case False
    then have unf: "str_nat n = str_nat (n div 10) @ [digit_char (n mod 10)]"
      by (subst str_nat.simps) simp
    have "n mod 10 < 10" by simp
    then have d: "is_digit (digit_char (n mod 10))"
      using digit_char_cases by blast
    from 1(2) have "c \<in> set (str_nat (n div 10) @ [digit_char (n mod 10)])"
      by (simp only: unf)
    then have "c \<in> set (str_nat (n div 10)) \<or> c = digit_char (n mod 10)"
      by auto
    then show ?thesis
      using 1(1) [OF False] d by blast
  qed
qed

lemma digits_value_snoc: "digits_value (s @ [c]) = 10 * digits_value s + digit_val c"
  by (simp add: digits_value_def)

lemma digits_value_str_nat: "digits_value (str_nat n) = n"
proof (induction n rule: str_nat.induct)
  case (1 n)
  show ?case
  proof (cases "n < 10")
    case True
    then have "str_nat n = [digit_char n]"
      by (subst str_nat.simps) simp
    then show ?thesis
      using digit_char_cases [OF True] by (simp add: digits_value_def)
  next
    case False
    then have unf: "str_nat n = str_nat (n div 10) @ [digit_char (n mod 10)]"
      by (subst str_nat.simps) simp
    have "n mod 10 < 10" by simp
    then have d: "digit_val (digit_char (n mod 10)) = n mod 10"
      using digit_char_cases by blast
    have ih: "digits_value (str_nat (n div 10)) = n div 10"
      using 1 [OF False] .
    show ?thesis
      by (simp only: unf digits_value_snoc d ih) simp
  qed
qed

lemma str_nat_inj: "str_nat a = str_nat b \<Longrightarrow> a = b"
proof -
  assume "str_nat a = str_nat b"
  then have "digits_value (str_nat a) = digits_value (str_nat b)"
    by (rule arg_cong)
  then show "a = b"
    by (simp only: digits_value_str_nat)
qed

lemma not_digit_chars: "\<not> is_digit (CHR ''_'')" "\<not> is_digit (CHR ''-'')"
  by (simp_all add: is_digit_def)

lemma str_int_no_underscore: "CHR ''_'' \<notin> set (str_int i)"
proof
  assume "CHR ''_'' \<in> set (str_int i)"
  then have "CHR ''_'' \<in> set (str_nat (nat (- i))) \<or> CHR ''_'' \<in> set (str_nat (nat i))"
    by (simp add: str_int_def split: if_splits)
  then show False
    using str_nat_digits not_digit_chars(1) by blast
qed

lemma str_nat_no_minus: "str_nat n \<noteq> CHR ''-'' # s"
proof
  assume "str_nat n = CHR ''-'' # s"
  then have "CHR ''-'' \<in> set (str_nat n)" by simp
  then show False using str_nat_digits not_digit_chars(2) by blast
qed

lemma str_int_inj: "str_int a = str_int b \<Longrightarrow> a = b"
proof -
  assume eq: "str_int a = str_int b"
  consider "a < 0" "b < 0" | "a < 0" "\<not> b < 0" | "\<not> a < 0" "b < 0" | "\<not> a < 0" "\<not> b < 0"
    by blast
  then show "a = b"
  proof cases
    case 1
    with eq have "str_nat (nat (- a)) = str_nat (nat (- b))" by (simp add: str_int_def)
    then have "nat (- a) = nat (- b)" by (rule str_nat_inj)
    with 1 show ?thesis by simp
  next
    case 2
    with eq have "str_nat (nat b) = CHR ''-'' # str_nat (nat (- a))" by (simp add: str_int_def)
    then show ?thesis using str_nat_no_minus by blast
  next
    case 3
    with eq have "str_nat (nat a) = CHR ''-'' # str_nat (nat (- b))" by (simp add: str_int_def)
    then show ?thesis using str_nat_no_minus by blast
  next
    case 4
    with eq have "str_nat (nat a) = str_nat (nat b)" by (simp add: str_int_def)
    then have "nat a = nat b" by (rule str_nat_inj)
    with 4 show ?thesis by simp
  qed
qed

lemma takeWhile_upto:
  assumes "c \<notin> set u"
  shows "takeWhile (\<lambda>x. x \<noteq> c) (u @ c # x) = u"
proof -
  have "takeWhile (\<lambda>x. x \<noteq> c) (u @ c # x) = takeWhile (\<lambda>x. x \<noteq> c) u"
    by (simp add: takeWhile_tail)
  also have "\<dots> = u"
    using assms by (auto simp: takeWhile_eq_all_conv)
  finally show ?thesis .
qed

lemma prefixed_eq:
  assumes "c \<notin> set u" and "c \<notin> set v" and "u @ c # x = v @ c # y"
  shows "u = v \<and> x = y"
proof -
  have "takeWhile (\<lambda>x. x \<noteq> c) (u @ c # x) = takeWhile (\<lambda>x. x \<noteq> c) (v @ c # y)"
    using assms(3) by simp
  then have "u = v"
    using assms(1,2) by (simp add: takeWhile_upto)
  with assms(3) show ?thesis by simp
qed

lemma build_unique_filename_shape:
  "build_unique_filename msg default_ext =
     ''msg_'' @ str_int (msg_id msg) @ ''_'' @ base_name msg default_ext"
  by (simp add: build_unique_filename_def base_name_def split: option.splits)

lemma build_unique_filename_inj:
  assumes "build_unique_filename a da = build_unique_filename b db"
  shows "msg_id a = msg_id b"
proof -
  have "str_int (msg_id a) @ CHR ''_'' # base_name a da =
        str_int (msg_id b) @ CHR ''_'' # base_name b db"
    using assms by (simp add: build_unique_filename_shape)
  then have "str_int (msg_id a) = str_int (msg_id b)"
    using prefixed_eq [OF str_int_no_underscore str_int_no_underscore] by blast
  then show ?thesis by (rule str_int_inj)
qed

text \<open>
  Claim C7. Messages with distinct ids get distinct file names, whatever their attachments
  declare: the name is \<open>msg_<id>_\<close> followed by the declared file name if there is one,
  else by \<open>file\<close> and the attachment's extension, or the default extension.
\<close>

theorem unique_filename_distinct:
  "(msg_id a \<noteq> msg_id b \<longrightarrow>
      build_unique_filename a default_ext \<noteq> build_unique_filename b default_ext)
   \<and> build_unique_filename a default_ext =
       ''msg_'' @ str_int (msg_id a) @ ''_'' @
         (if msg_file a \<noteq> None \<and> truthy_str (name (the (msg_file a)))
          then the (name (the (msg_file a)))
          else ''file'' @
            (if msg_file a \<noteq> None \<and> truthy_str (ext (the (msg_file a)))
             then the (ext (the (msg_file a))) else default_ext))"
proof (intro conjI impI)
  assume "msg_id a \<noteq> msg_id b"
  then show "build_unique_filename a default_ext \<noteq> build_unique_filename b default_ext"
    using build_unique_filename_inj by blast
next
  show "build_unique_filename a default_ext =
       ''msg_'' @ str_int (msg_id a) @ ''_'' @
         (if msg_file a \<noteq> None \<and> truthy_str (name (the (msg_file a)))
          then the (name (the (msg_file a)))
          else ''file'' @
            (if msg_file a \<noteq> None \<and> truthy_str (ext (the (msg_file a)))
             then the (ext (the (msg_file a))) else default_ext))"
    unfolding build_unique_filename_shape base_name_def ..
qed

lemma str_int_1: "str_int 1 = ''1''" and str_int_2: "str_int 2 = ''2''"
  by (simp_all add: str_int_def str_nat.simps digit_char_def)

theorem unique_filename_distinct_witness:
  "msg_id (named_msg 1 ''a.jpg'') \<noteq> msg_id (named_msg 2 ''a.jpg'')
   \<and> build_unique_filename (named_msg 1 ''a.jpg'') ''.bin'' = ''msg_1_a.jpg''
   \<and> build_unique_filename (named_msg 2 ''a.jpg'') ''.bin'' = ''msg_2_a.jpg''
   \<and> build_unique_filename (named_msg 1 ''a.jpg'') ''.bin'' \<noteq>
       build_unique_filename (named_msg 2 ''a.jpg'') ''.bin''"
proof -
  have h: "msg_id (named_msg 1 ''a.jpg'') \<noteq> msg_id (named_msg 2 ''a.jpg'')"
    by (simp add: named_msg_def)
  have d: "build_unique_filename (named_msg 1 ''a.jpg'') ''.bin'' \<noteq>
      build_unique_filename (named_msg 2 ''a.jpg'') ''.bin''"
    using unique_filename_distinct [of "named_msg 1 ''a.jpg''" "named_msg 2 ''a.jpg''" "''.bin''"] h
    by blast
  have n1: "build_unique_filename (named_msg 1 ''a.jpg'') ''.bin'' = ''msg_1_a.jpg''"
    by (simp add: build_unique_filename_def named_msg_def truthy_str_def str_int_1)
  have n2: "build_unique_filename (named_msg 2 ''a.jpg'') ''.bin'' = ''msg_2_a.jpg''"
    by (simp add: build_unique_filename_def named_msg_def truthy_str_def str_int_2)
  show ?thesis using h d n1 n2 by blast
qed

end
